theory Spec2Isabelle
  imports Main "HOL-Library.Sublist"
begin

section \<open>PyPlugInMgr: a shallow embedding of \<open>PluginMgr/__init__.py\<close>\<close>

text \<open>
  The plugin manager scans a directory for files matching \<open>"*" + plug_ext\<close>, loads each
  one through importlib and stores \<open>[module, dict(inspect.getmembers(module))]\<close> in its
  catalog under \<open>os.path.splitext(base_filename)[0]\<close>.  The manager object is a record
  passed explicitly; an exception is a value; the file system and the import machinery,
  which the manager only calls, are the fields of a record \<open>world\<close>.
\<close>

subsection \<open>Exceptions, modules, the manager object\<close>

text \<open>
  The exception classes the source names, plus \<open>KeyError\<close> for a failed subscript and
  \<open>OtherError cls\<close> for any other class a plugin's own code may raise.  An instance is
  its class and its message.  A user-defined subclass of \<open>AttributeError\<close> counts as
  \<open>AttributeError\<close>, as \<open>except AttributeError\<close> sees it.
\<close>

datatype exc_kind = AttributeError | FileNotFoundError | ImportError | KeyError
  | OtherError string

datatype exn = Exn (exn_kind: exc_kind) (exn_msg: string)

text \<open>
  A loaded module is opaque to the manager: it is only stored and handed to
  \<open>inspect.getmembers\<close>.  A module value therefore carries the name it was created under,
  its file, and what \<open>inspect.getmembers\<close> does on it: the list of (name, value) pairs, or
  the exception raised (a module may define its own \<open>__dir__\<close>).
\<close>

datatype 'v module = Module (mod_name: string) (mod_file: string)
  (mod_members: "exn + (string \<times> 'v) list")

type_synonym 'v entry = "'v module \<times> (string \<rightharpoonup> 'v)"

text \<open>
  The attributes of a \<open>PlugInMgr\<close> instance.  \<open>sys_path\<close> is the interpreter's
  \<open>sys.path\<close>, which \<open>findcandidate_files\<close> appends to; it is carried in the same record.
\<close>

record 'v mgr =
  plugin_dir :: string
  candidate_files :: "string list"
  plug_ext :: string
  catalog :: "string \<rightharpoonup> 'v entry"
  sys_path :: "string list"

text \<open>
  What the manager asks of its surroundings:
  \<^item> \<open>scandir d\<close>: the names of the entries of directory \<open>d\<close>, in the order the operating
    system enumerates them (empty when \<open>d\<close> is not a directory);
  \<^item> \<open>path_exists p\<close>: \<open>Path.exists()\<close>;
  \<^item> \<open>loader_suffixes\<close>: the file suffixes importlib has a loader for
    (\<open>.py\<close>, \<open>.pyc\<close>, the extension-module suffixes);
  \<^item> \<open>exec_module (name, location)\<close>: \<open>module_from_spec(spec)\<close> followed by
    \<open>spec.loader.exec_module(module)\<close>: the exception that the plugin's top-level code
    (or reading the file) raises, or the executed module.
\<close>

record 'v world =
  scandir :: "string \<Rightarrow> string list"
  path_exists :: "string \<Rightarrow> bool"
  loader_suffixes :: "string list"
  exec_module :: "string \<times> string \<Rightarrow> exn + 'v module"

subsection \<open>Library functions the source calls\<close>

text \<open>\<open>str.rfind\<close>: the highest index of the character, or \<open>-1\<close>.\<close>

definition rfind :: "char \<Rightarrow> string \<Rightarrow> int" where
  "rfind c p =
     (if c \<in> set p then int (length p) - 1 - int (length (takeWhile (\<lambda>x. x \<noteq> c) (rev p)))
      else - 1)"

definition rstrip :: "char \<Rightarrow> string \<Rightarrow> string" where
  "rstrip c p = rev (dropWhile (\<lambda>x. x = c) (rev p))"

text \<open>
  \<open>posixpath.split\<close>:
  \<^verbatim>\<open>
    i = p.rfind(sep) + 1
    head, tail = p[:i], p[i:]
    if head and head != sep*len(head):
        head = head.rstrip(sep)
    return head, tail
  \<close>
\<close>

definition os_path_split :: "string \<Rightarrow> string \<times> string" where
  "os_path_split p =
     (let i = nat (rfind CHR ''/'' p + 1);
          head = take i p;
          tail = drop i p
      in (if head \<noteq> [] \<and> head \<noteq> replicate (length head) CHR ''/''
          then rstrip CHR ''/'' head else head, tail))"

text \<open>
  \<open>posixpath.splitext\<close>, that is \<open>genericpath._splitext(p, '/', None, '.')\<close>:
  \<^verbatim>\<open>
    sepIndex = p.rfind(sep)
    dotIndex = p.rfind(extsep)
    if dotIndex > sepIndex:
        # skip all leading dots
        filenameIndex = sepIndex + 1
        while filenameIndex < dotIndex:
            if p[filenameIndex:filenameIndex+1] != extsep:
                return p[:dotIndex], p[dotIndex:]
            filenameIndex += 1
    return p, p[:0]
  \<close>
  The while loop returns the split at the first character of \<open>p[sepIndex+1:dotIndex]\<close>
  that is not a dot, and falls through when there is none.
\<close>

definition splitext :: "string \<Rightarrow> string \<times> string" where
  "splitext p =
     (let sepIndex = rfind CHR ''/'' p;
          dotIndex = rfind CHR ''.'' p
      in if dotIndex > sepIndex
            \<and> list_ex (\<lambda>c. c \<noteq> CHR ''.'')
                 (take (nat (dotIndex - (sepIndex + 1))) (drop (nat (sepIndex + 1)) p))
         then (take (nat dotIndex) p, drop (nat dotIndex) p)
         else (p, []))"

text \<open>
  \<open>plugin_dir / name\<close> and \<open>str\<close> of the result, for \<open>name\<close> a plain file name (one
  component, as \<open>glob\<close> yields and as discovery passes to \<open>get_installed_config\<close>).
  \<open>plugin_dir\<close> is \<open>Path.cwd() / plugin_dir\<close>, an absolute normalised path, which ends
  with a separator only when it is a root.  pathlib's normalisation of other right
  operands (absolute paths, \<open>.\<close>, repeated separators) is not modelled.
\<close>

definition path_join :: "string \<Rightarrow> string \<Rightarrow> string" where
  "path_join d name = (if d \<noteq> [] \<and> last d = CHR ''/'' then d @ name else d @ ''/'' @ name)"

text \<open>
  The matcher of \<open>Path.glob\<close> for one path component: \<open>fnmatch.translate\<close> compiled
  case-sensitively and matched against the whole name; \<open>*\<close> is any run of characters,
  \<open>?\<close> any one character, and a name starting with a dot gets no special treatment.
  Bracket classes \<open>[...]\<close> are not modelled (a bracket is taken literally), nor is the
  recursive pattern \<open>**\<close>.
\<close>

fun fnmatch :: "string \<Rightarrow> string \<Rightarrow> bool" where
  "fnmatch [] [] = True"
| "fnmatch [] (c # cs) = False"
| "fnmatch (p # ps) [] = (p = CHR ''*'' \<and> fnmatch ps [])"
| "fnmatch (p # ps) (c # cs) =
     (if p = CHR ''*'' then fnmatch ps (c # cs) \<or> fnmatch (p # ps) cs
      else (p = CHR ''?'' \<or> p = c) \<and> fnmatch ps cs)"

text \<open>
  \<open>Path.glob(pattern)\<close> for a one-component pattern: the entries of the directory whose
  name matches, as paths, in enumeration order.
\<close>

definition glob :: "'v world \<Rightarrow> string \<Rightarrow> string \<Rightarrow> string list" where
  "glob w d pattern = map (path_join d) (filter (fnmatch pattern) (scandir w d))"

text \<open>
  \<open>importlib.util.spec_from_file_location(name, location)\<close> with no loader given: a spec
  when \<open>location\<close> ends with a suffix some loader supports, else \<open>None\<close>.
\<close>

definition spec_from_file_location :: "'v world \<Rightarrow> string \<Rightarrow> string \<Rightarrow> (string \<times> string) option" where
  "spec_from_file_location w name location =
     (if list_ex (\<lambda>suf. suffix suf location) (loader_suffixes w) then Some (name, location)
      else None)"

text \<open>\<open>inspect.getmembers(module)\<close>.\<close>

definition inspect_getmembers :: "'v module \<Rightarrow> exn + (string \<times> 'v) list" where
  "inspect_getmembers m = mod_members m"

text \<open>\<open>dict(pairs)\<close>: pairs are inserted left to right, so a later pair wins.\<close>

definition dict :: "(string \<times> 'v) list \<Rightarrow> (string \<rightharpoonup> 'v)" where
  "dict pairs = fold (\<lambda>kv d. d(fst kv \<mapsto> snd kv)) pairs Map.empty"

text \<open>\<open>d[k]\<close>: the value, or \<open>KeyError\<close>.\<close>

definition getitem :: "(string \<rightharpoonup> 'a) \<Rightarrow> string \<Rightarrow> exn + 'a" where
  "getitem d k = (case d k of None \<Rightarrow> Inl (Exn KeyError k) | Some v \<Rightarrow> Inr v)"

text \<open>Truth value of what \<open>has\<close> returns: \<open>None\<close> and \<open>False\<close> are false.\<close>

fun truthy :: "bool option \<Rightarrow> bool" where
  "truthy None = False"
| "truthy (Some b) = b"

subsection \<open>The class \<open>PlugInMgr\<close>\<close>

text \<open>
  \<open>__init__\<close>, given the resolved directory \<open>Path.cwd() / plugin_dir\<close> and the
  interpreter's current \<open>sys.path\<close>.  The optional \<open>mkdir\<close> changes the file system only.
\<close>

definition PlugInMgr :: "string list \<Rightarrow> string \<Rightarrow> string \<Rightarrow> 'v mgr" where
  "PlugInMgr path0 dir ext =
     \<lparr>plugin_dir = dir, candidate_files = [], plug_ext = ext, catalog = Map.empty,
      sys_path = path0\<rparr>"

text \<open>
  \<open>get_installed_config(config_file)\<close>.  \<open>module_from_spec(None)\<close> raises
  \<open>AttributeError\<close> (it reads \<open>spec.loader\<close>).
\<close>

definition get_installed_config :: "'v world \<Rightarrow> 'v mgr \<Rightarrow> string \<Rightarrow> exn + 'v module" where
  "get_installed_config w s config_file =
     (let config_path = path_join (plugin_dir s) config_file
      in if \<not> path_exists w config_path
         then Inl (Exn FileNotFoundError (''No file found at location '' @ config_path))
         else (case spec_from_file_location w config_file config_path of
                 None \<Rightarrow>
                   Inl (Exn AttributeError
                          ('''NoneType' object has no attribute 'loader'' @ [CHR 0x27]))
               | Some spec \<Rightarrow> exec_module w spec))"

text \<open>
  The body of the \<open>try\<close> in \<open>findcandidate_files\<close>, up to the store into the catalog:
  the exception raised, or the entry \<open>[module, dict(inspect.getmembers(module))]\<close>.
\<close>

definition load_entry :: "'v world \<Rightarrow> 'v mgr \<Rightarrow> string \<Rightarrow> exn + 'v entry" where
  "load_entry w s base_filename =
     (case get_installed_config w s base_filename of
        Inl e \<Rightarrow> Inl e
      | Inr m \<Rightarrow>
          (case inspect_getmembers m of
             Inl e \<Rightarrow> Inl e
           | Inr members \<Rightarrow> Inr (m, dict members)))"

text \<open>
  The \<open>except AttributeError\<close> clause: an \<open>AttributeError\<close> is replaced by an
  \<open>ImportError\<close> naming the file; any other exception is not caught and propagates.
\<close>

definition on_error :: "exn \<Rightarrow> string \<Rightarrow> exn" where
  "on_error e base_filename =
     (if exn_kind e = AttributeError
      then Exn ImportError (''Unable to import Plugin Module - '' @ base_filename)
      else e)"

text \<open>
  The \<open>for x in cfiles\<close> loop.  The result is the exception that ended the call, if any,
  and the manager as the call left it.
\<close>

fun load_loop :: "'v world \<Rightarrow> string list \<Rightarrow> 'v mgr \<Rightarrow> exn option \<times> 'v mgr" where
  "load_loop w [] s = (None, s)"
| "load_loop w (x # xs) s =
     (let s1 = s\<lparr>candidate_files := candidate_files s @ [x]\<rparr>;
          base_filename = snd (os_path_split x)
      in case load_entry w s1 base_filename of
           Inl e \<Rightarrow> (Some (on_error e base_filename), s1)
         | Inr entry \<Rightarrow>
             load_loop w xs (s1\<lparr>catalog := (catalog s1)(fst (splitext base_filename) \<mapsto> entry)\<rparr>))"

definition findcandidate_files :: "'v world \<Rightarrow> 'v mgr \<Rightarrow> exn option \<times> 'v mgr" where
  "findcandidate_files w s =
     (let s0 = s\<lparr>sys_path := sys_path s @ [plugin_dir s]\<rparr>;
          cfiles = glob w (plugin_dir s0) (''*'' @ plug_ext s0);
          s1 = s0\<lparr>candidate_files := []\<rparr>
      in load_loop w cfiles s1)"

definition get_plugin :: "'v mgr \<Rightarrow> string \<Rightarrow> 'v module option" where
  "get_plugin s plugin_name =
     (if plugin_name \<in> dom (catalog s) then Some (fst (the (catalog s plugin_name))) else None)"

text \<open>\<open>has\<close> returns \<open>True\<close>, \<open>False\<close> or \<open>None\<close>: a \<open>bool option\<close>.\<close>

definition has :: "'v mgr \<Rightarrow> string \<Rightarrow> string \<Rightarrow> bool option" where
  "has s plugin_name object_name =
     (if plugin_name \<in> dom (catalog s)
      then Some (object_name \<in> dom (snd (the (catalog s plugin_name))))
      else None)"

text \<open>\<open>get\<close>; both subscripts may raise \<open>KeyError\<close> as far as the language goes.\<close>

definition get :: "'v mgr \<Rightarrow> string \<Rightarrow> string \<Rightarrow> 'v \<Rightarrow> exn + 'v" where
  "get s plugin_name object_name default_value =
     (if truthy (has s plugin_name object_name)
      then (case getitem (catalog s) plugin_name of
              Inl e \<Rightarrow> Inl e
            | Inr entry \<Rightarrow> getitem (snd entry) object_name)
      else Inr default_value)"


subsection \<open>Notions used to state the properties\<close>

text \<open>The catalog key the loop computes for a candidate path.\<close>

definition plugin_id :: "string \<Rightarrow> string" where
  "plugin_id x = fst (splitext (snd (os_path_split x)))"

text \<open>The paths the loop iterates over, and the manager as the loop finds it.\<close>

definition candidates :: "'v world \<Rightarrow> 'v mgr \<Rightarrow> string list" where
  "candidates w s = glob w (plugin_dir s) (''*'' @ plug_ext s)"

definition loop_entry :: "'v mgr \<Rightarrow> 'v mgr" where
  "loop_entry s = s\<lparr>sys_path := sys_path s @ [plugin_dir s], candidate_files := []\<rparr>"

text \<open>A candidate whose \<open>try\<close> body completes.\<close>

definition loads :: "'v world \<Rightarrow> 'v mgr \<Rightarrow> string \<Rightarrow> bool" where
  "loads w s x = (case load_entry w s (snd (os_path_split x)) of Inl e \<Rightarrow> False | Inr entry \<Rightarrow> True)"

text \<open>
  The entries a run of the loop over \<open>xs\<close> stores, as one dictionary: candidates in order,
  a later one overriding an earlier one with the same key, up to the first that fails.
\<close>

fun new_entries :: "'v world \<Rightarrow> 'v mgr \<Rightarrow> string list \<Rightarrow> (string \<rightharpoonup> 'v entry)" where
  "new_entries w s [] = Map.empty"
| "new_entries w s (x # xs) =
     (case load_entry w s (snd (os_path_split x)) of
        Inl e \<Rightarrow> Map.empty
      | Inr entry \<Rightarrow> [plugin_id x \<mapsto> entry] ++ new_entries w s xs)"



text \<open>
  An extension of the usual shape: a dot followed by characters none of which is a dot, a
  separator or a glob metacharacter (\<open>.py\<close>, but not \<open>.plugin.py\<close>, \<open>py\<close> or \<open>.p?\<close>).
\<close>

definition plain_ext :: "string \<Rightarrow> bool" where
  "plain_ext ext =
     (case ext of
        [] \<Rightarrow> False
      | c # e \<Rightarrow> c = CHR ''.'' \<and> list_all (\<lambda>ch. ch \<notin> set ''./*?['') e)"

text \<open>The file name with its last \<open>length ext\<close> characters removed.\<close>

definition strip_ext :: "string \<Rightarrow> string \<Rightarrow> string" where
  "strip_ext ext name = take (length name - length ext) name"

text \<open>
  A directory entry name that ends with \<open>ext\<close>, has no separator in it, and has something
  other than dots in front of the extension.
\<close>

definition regular_name :: "string \<Rightarrow> string \<Rightarrow> bool" where
  "regular_name ext name =
     (suffix ext name \<and> CHR ''/'' \<notin> set name \<and> list_ex (\<lambda>c. c \<noteq> CHR ''.'') (strip_ext ext name))"

subsection \<open>Concrete plugin directories\<close>

datatype py_value = PyInt int | PyStr string | PyNone | PyFunc string

text \<open>The names every module created from a spec carries besides those it defines.\<close>

definition std_members :: "string \<Rightarrow> (string \<times> py_value) list" where
  "std_members name = [(''__doc__'', PyNone), (''__name__'', PyStr name)]"

text \<open>
  The directory \<open>/app/Plugins\<close> holding the files \<open>names\<close>; \<open>run name\<close> is what the
  top-level code of file \<open>name\<close> does: raise, or define the given names.
\<close>

definition plugins_world ::
  "string list \<Rightarrow> (string \<Rightarrow> exn + (string \<times> py_value) list) \<Rightarrow> py_value world" where
  "plugins_world names run =
     \<lparr>scandir = (\<lambda>d. if d = ''/app/Plugins'' then names else []),
      path_exists = (\<lambda>p. p \<in> set (map (path_join ''/app/Plugins'') names)),
      loader_suffixes = [''.py'', ''.pyc'', ''.so''],
      exec_module = (\<lambda>spec.
        case run (fst spec) of
          Inl e \<Rightarrow> Inl e
        | Inr defs \<Rightarrow> Inr (Module (fst spec) (snd spec) (Inr (defs @ std_members (fst spec)))))\<rparr>"

text \<open>
  \<open>alpha.py\<close> defines \<open>VALUE = 42\<close> and \<open>greet\<close>, \<open>beta.py\<close> defines nothing, and there is
  a text file beside them.
\<close>

definition alpha_beta :: "py_value world" where
  "alpha_beta =
     plugins_world [''alpha.py'', ''notes.txt'', ''beta.py'']
       (\<lambda>name. if name = ''alpha.py'' then Inr [(''VALUE'', PyInt 42), (''greet'', PyFunc ''greet'')]
               else Inr [])"

text \<open>The same directory after \<open>alpha.py\<close> was edited so that its top-level code raises.\<close>

definition alpha_broken :: "py_value world" where
  "alpha_broken =
     plugins_world [''alpha.py'', ''notes.txt'', ''beta.py'']
       (\<lambda>name. if name = ''alpha.py'' then Inl (Exn (OtherError ''ValueError'') ''boom'')
               else Inr [])"

text \<open>Three plugins, the second of which raises \<open>ValueError("boom")\<close> when executed.\<close>

definition one_bad :: "py_value world" where
  "one_bad =
     plugins_world [''a.py'', ''bad.py'', ''c.py'']
       (\<lambda>name. if name = ''bad.py'' then Inl (Exn (OtherError ''ValueError'') ''boom'')
               else Inr [])"

text \<open>A plugin whose top-level code opens a file that is not there.\<close>

definition opens_missing :: "py_value world" where
  "opens_missing =
     plugins_world [''reader.py'']
       (\<lambda>name. Inl (Exn FileNotFoundError ''[Errno 2] No such file or directory: data.txt''))"

text \<open>A file that was listed and then removed before it could be loaded.\<close>

definition vanished :: "py_value world" where
  "vanished = (plugins_world [''gone.py''] (\<lambda>name. Inr []))\<lparr>path_exists := (\<lambda>p. False)\<rparr>"

text \<open>Plugins named with a two-dot extension.\<close>

definition two_dot :: "py_value world" where
  "two_dot = plugins_world [''foo.plugin.py''] (\<lambda>name. Inr [])"

definition tar_world :: "py_value world" where
  "tar_world = plugins_world [''a.tar.py'', ''b.tar.py''] (\<lambda>name. Inr [])"

text \<open>Two files ending in \<open>.py\<close>, one of them named just \<open>.py\<close>.\<close>

definition dot_files :: "py_value world" where
  "dot_files = plugins_world [''.py'', ''.py.py''] (\<lambda>name. Inr [])"

definition fresh_mgr :: "string \<Rightarrow> py_value mgr" where
  "fresh_mgr ext = PlugInMgr [] ''/app/Plugins'' ext"

text \<open>The manager after discovery over \<open>alpha.py\<close> and \<open>beta.py\<close>.\<close>

definition alpha_beta_state :: "py_value mgr" where
  "alpha_beta_state = snd (findcandidate_files alpha_beta (fresh_mgr ''.py''))"

section \<open>Properties\<close>

subsection \<open>Paths and patterns\<close>

lemma rfind_absent: "c \<notin> set p \<Longrightarrow> rfind c p = - 1"
  by (simp add: rfind_def)

lemma rfind_ge: "- 1 \<le> rfind c p"
proof -
  have "length (takeWhile (\<lambda>x. x \<noteq> c) (rev p)) \<le> length (rev p)"
    by (rule length_takeWhile_le)
  then show ?thesis by (simp add: rfind_def)
qed

lemma rfind_last: "c \<notin> set ys \<Longrightarrow> rfind c (xs @ c # ys) = int (length xs)"
proof -
  assume a: "c \<notin> set ys"
  then have "takeWhile (\<lambda>x. x \<noteq> c) (rev ys @ c # rev xs) = rev ys"
    by (subst takeWhile_append2) auto
  then show ?thesis by (simp add: rfind_def)
qed

lemma os_path_split_join:
  assumes "CHR ''/'' \<notin> set name"
  shows "snd (os_path_split (path_join d name)) = name"
proof (cases "d \<noteq> [] \<and> last d = CHR ''/''")
  case True
  then obtain d' where d: "d = d' @ [CHR ''/'']"
    by (metis append_butlast_last_id)
  have "rfind CHR ''/'' (d' @ CHR ''/'' # name) = int (length d')"
    using assms by (rule rfind_last)
  then show ?thesis using True d
    by (simp add: os_path_split_def path_join_def Let_def nat_add_distrib)
next
  case False
  have "rfind CHR ''/'' (d @ CHR ''/'' # name) = int (length d)"
    using assms by (rule rfind_last)
  then show ?thesis using False
    by (auto simp add: os_path_split_def path_join_def Let_def nat_add_distrib)
qed

lemma path_join_inj: "path_join d a = path_join d b \<Longrightarrow> a = b"
  by (simp add: path_join_def split: if_splits)

lemma splitext_single_dot:
  assumes "CHR ''/'' \<notin> set stem" "CHR ''/'' \<notin> set e" "CHR ''.'' \<notin> set e"
    and "\<exists>c\<in>set stem. c \<noteq> CHR ''.''"
  shows "splitext (stem @ CHR ''.'' # e) = (stem, CHR ''.'' # e)"
proof -
  have s: "rfind CHR ''/'' (stem @ CHR ''.'' # e) = - 1"
    using assms by (simp add: rfind_absent)
  have d: "rfind CHR ''.'' (stem @ CHR ''.'' # e) = int (length stem)"
    using assms by (simp add: rfind_last)
  show ?thesis using assms(4)
    by (simp add: splitext_def s d list_ex_iff)
qed

lemma fnmatch_literal:
  "CHR ''*'' \<notin> set ps \<Longrightarrow> CHR ''?'' \<notin> set ps \<Longrightarrow> fnmatch ps name \<longleftrightarrow> ps = name"
  by (induction ps name rule: fnmatch.induct) auto

lemma fnmatch_star_literal:
  assumes "CHR ''*'' \<notin> set ps" "CHR ''?'' \<notin> set ps"
  shows "fnmatch (CHR ''*'' # ps) name \<longleftrightarrow> suffix ps name"
proof (induction name)
  case Nil
  show ?case using assms by (simp add: fnmatch_literal)
next
  case (Cons c cs)
  show ?case using assms Cons by (auto simp: fnmatch_literal suffix_Cons)
qed

subsection \<open>The discovery loop\<close>

lemma load_entry_upd [simp]:
  "load_entry w (s\<lparr>candidate_files := cf\<rparr>) f = load_entry w s f"
  "load_entry w (s\<lparr>catalog := ca\<rparr>) f = load_entry w s f"
  "load_entry w (s\<lparr>sys_path := sp\<rparr>) f = load_entry w s f"
  by (simp_all add: load_entry_def get_installed_config_def)

lemma loads_upd [simp]:
  "loads w (s\<lparr>candidate_files := cf\<rparr>) = loads w s"
  "loads w (s\<lparr>catalog := ca\<rparr>) = loads w s"
  "loads w (s\<lparr>sys_path := sp\<rparr>) = loads w s"
  by (simp_all add: loads_def fun_eq_iff)

lemma new_entries_upd [simp]:
  "new_entries w (s\<lparr>candidate_files := cf\<rparr>) xs = new_entries w s xs"
  "new_entries w (s\<lparr>catalog := ca\<rparr>) xs = new_entries w s xs"
  "new_entries w (s\<lparr>sys_path := sp\<rparr>) xs = new_entries w s xs"
  by (induction xs) (simp_all split: sum.splits)

lemma load_loop_success:
  "list_all (loads w s) xs \<Longrightarrow>
   load_loop w xs s =
     (None, s\<lparr>candidate_files := candidate_files s @ xs, catalog := catalog s ++ new_entries w s xs\<rparr>)"
proof (induction xs arbitrary: s)
  case Nil
  then show ?case by simp
next
  case (Cons x xs)
  from Cons.prems obtain entry where en: "load_entry w s (snd (os_path_split x)) = Inr entry"
    by (auto simp: loads_def split: sum.splits)
  let ?s2 = "s\<lparr>candidate_files := candidate_files s @ [x],
               catalog := (catalog s)(plugin_id x \<mapsto> entry)\<rparr>"
  have rest: "list_all (loads w ?s2) xs"
    using Cons.prems by simp
  have step: "load_loop w (x # xs) s = load_loop w xs ?s2"
    using en by (simp add: Let_def plugin_id_def)
  have cat: "catalog ?s2 ++ new_entries w ?s2 xs = catalog s ++ new_entries w s (x # xs)"
    using en by (intro ext) (simp add: map_add_def split: option.splits)
  have "load_loop w (x # xs) s = load_loop w xs ?s2"
    by (rule step)
  also have "\<dots> = (None, ?s2\<lparr>candidate_files := candidate_files ?s2 @ xs,
                               catalog := catalog ?s2 ++ new_entries w ?s2 xs\<rparr>)"
    by (rule Cons.IH [OF rest])
  also have "\<dots> = (None, s\<lparr>candidate_files := candidate_files s @ x # xs,
                             catalog := catalog s ++ new_entries w s (x # xs)\<rparr>)"
    unfolding cat by simp
  finally show ?case .
qed

lemma load_loop_abort:
  assumes "list_all (loads w s) pre" and "load_entry w s (snd (os_path_split x)) = Inl e"
  shows "load_loop w (pre @ x # post) s =
     (Some (on_error e (snd (os_path_split x))),
      s\<lparr>candidate_files := candidate_files s @ pre @ [x], catalog := catalog s ++ new_entries w s pre\<rparr>)"
  using assms
proof (induction pre arbitrary: s)
  case Nil
  then show ?case by (simp add: Let_def)
next
  case (Cons p pre)
  from Cons.prems obtain entry where en: "load_entry w s (snd (os_path_split p)) = Inr entry"
    by (auto simp: loads_def split: sum.splits)
  let ?s2 = "s\<lparr>candidate_files := candidate_files s @ [p],
               catalog := (catalog s)(plugin_id p \<mapsto> entry)\<rparr>"
  have rest: "list_all (loads w ?s2) pre"
    using Cons.prems by simp
  have fail: "load_entry w ?s2 (snd (os_path_split x)) = Inl e"
    using Cons.prems by simp
  have step: "load_loop w ((p # pre) @ x # post) s = load_loop w (pre @ x # post) ?s2"
    using en by (simp add: Let_def plugin_id_def)
  have cat: "catalog ?s2 ++ new_entries w ?s2 pre = catalog s ++ new_entries w s (p # pre)"
    using en by (intro ext) (simp add: map_add_def split: option.splits)
  have "load_loop w ((p # pre) @ x # post) s = load_loop w (pre @ x # post) ?s2"
    by (rule step)
  also have "\<dots> = (Some (on_error e (snd (os_path_split x))),
                     ?s2\<lparr>candidate_files := candidate_files ?s2 @ pre @ [x],
                         catalog := catalog ?s2 ++ new_entries w ?s2 pre\<rparr>)"
    by (rule Cons.IH [OF rest fail])
  also have "\<dots> = (Some (on_error e (snd (os_path_split x))),
                     s\<lparr>candidate_files := candidate_files s @ (p # pre) @ [x],
                       catalog := catalog s ++ new_entries w s (p # pre)\<rparr>)"
    unfolding cat by simp
  finally show ?case .
qed

text \<open>Every run is one of the two.\<close>

lemma load_loop_cases:
  "list_all (loads w s) xs \<or>
   (\<exists>pre x post e. xs = pre @ x # post \<and> list_all (loads w s) pre
       \<and> load_entry w s (snd (os_path_split x)) = Inl e)"
proof (induction xs)
  case Nil
  then show ?case by simp
next
  case (Cons a xs)
  show ?case
  proof (cases "load_entry w s (snd (os_path_split a))")
    case (Inl e)
    then have "a # xs = [] @ a # xs \<and> list_all (loads w s) [] \<and> load_entry w s (snd (os_path_split a)) = Inl e"
      by simp
    then show ?thesis by blast
  next
    case (Inr entry)
    then have la: "loads w s a" by (simp add: loads_def)
    from Cons show ?thesis
    proof
      assume "list_all (loads w s) xs"
      with la show ?thesis by simp
    next
      assume "\<exists>pre x post e. xs = pre @ x # post \<and> list_all (loads w s) pre
       \<and> load_entry w s (snd (os_path_split x)) = Inl e"
      then obtain pre x post e where "xs = pre @ x # post" "list_all (loads w s) pre"
         "load_entry w s (snd (os_path_split x)) = Inl e" by blast
      with la have "a # xs = (a # pre) @ x # post \<and> list_all (loads w s) (a # pre) \<and> load_entry w s (snd (os_path_split x)) = Inl e"
        by simp
      then show ?thesis by blast
    qed
  qed
qed

lemma findcandidate_files_loop:
  "findcandidate_files w s = load_loop w (candidates w s) (loop_entry s)"
  by (simp add: findcandidate_files_def candidates_def loop_entry_def Let_def)

lemma loop_entry_simps [simp]:
  "catalog (loop_entry s) = catalog s" "plugin_dir (loop_entry s) = plugin_dir s"
  "plug_ext (loop_entry s) = plug_ext s" "candidate_files (loop_entry s) = []"
  "sys_path (loop_entry s) = sys_path s @ [plugin_dir s]"
  "load_entry w (loop_entry s) f = load_entry w s f"
  "loads w (loop_entry s) = loads w s"
  "new_entries w (loop_entry s) xs = new_entries w s xs"
  by (simp_all add: loop_entry_def)

lemma new_entries_dom:
  "list_all (loads w s) xs \<Longrightarrow> dom (new_entries w s xs) = plugin_id ` set xs"
  by (induction xs) (auto simp: loads_def split: sum.splits)

lemma new_entries_outside:
  "i \<notin> plugin_id ` set xs \<Longrightarrow> new_entries w s xs i = None"
  by (induction xs) (auto simp: map_add_def split: sum.splits option.splits)







lemma load_loop_completed:
  assumes "load_loop w xs s = (None, s')"
  shows "list_all (loads w s) xs
    \<and> s' = s\<lparr>candidate_files := candidate_files s @ xs, catalog := catalog s ++ new_entries w s xs\<rparr>"
proof -
  from load_loop_cases [of w s xs] show ?thesis
  proof
    assume a: "list_all (loads w s) xs"
    from load_loop_success [OF a] assms a show ?thesis by simp
  next
    assume "\<exists>pre x post e. xs = pre @ x # post \<and> list_all (loads w s) pre
       \<and> load_entry w s (snd (os_path_split x)) = Inl e"
    then obtain pre x post e where d: "xs = pre @ x # post" "list_all (loads w s) pre"
       "load_entry w s (snd (os_path_split x)) = Inl e" by blast
    from load_loop_abort [OF d(2) d(3), of post] assms d(1) show ?thesis by simp
  qed
qed








lemma findcandidate_files_completed:
  assumes "findcandidate_files w s = (None, s')"
  shows "list_all (loads w s) (candidates w s)
    \<and> s' = s\<lparr>sys_path := sys_path s @ [plugin_dir s], candidate_files := candidates w s,
             catalog := catalog s ++ new_entries w s (candidates w s)\<rparr>"
proof -
  from assms have "load_loop w (candidates w s) (loop_entry s) = (None, s')"
    by (simp add: findcandidate_files_loop)
  from load_loop_completed [OF this] show ?thesis
    by (simp add: loop_entry_def)
qed



text \<open>Plain extensions and regular names.\<close>

lemma plain_ext_parts:
  assumes "plain_ext ext"
  obtains e where "ext = CHR ''.'' # e" "CHR ''.'' \<notin> set e" "CHR ''/'' \<notin> set e"
    "CHR ''*'' \<notin> set e" "CHR ''?'' \<notin> set e"
  using assms by (auto simp: plain_ext_def list_all_iff split: list.splits)

lemma plain_ext_glob:
  assumes "plain_ext ext"
  shows "fnmatch (CHR ''*'' # ext) = suffix ext"
proof
  fix name
  from assms obtain e where e: "ext = CHR ''.'' # e" "CHR ''*'' \<notin> set e" "CHR ''?'' \<notin> set e"
    by (rule plain_ext_parts)
  then have "CHR ''*'' \<notin> set ext" "CHR ''?'' \<notin> set ext" by auto
  from fnmatch_star_literal [OF this] show "fnmatch (CHR ''*'' # ext) name = suffix ext name" .
qed

lemma plain_ext_candidates:
  "plain_ext (plug_ext s) \<Longrightarrow>
   candidates w s = map (path_join (plugin_dir s)) (filter (suffix (plug_ext s)) (scandir w (plugin_dir s)))"
  by (simp add: candidates_def glob_def plain_ext_glob)

lemma suffix_strip_ext: "suffix ext name \<Longrightarrow> strip_ext ext name @ ext = name"
  by (auto simp: suffix_def strip_ext_def)

lemma strip_ext_inj:
  "suffix ext a \<Longrightarrow> suffix ext b \<Longrightarrow> strip_ext ext a = strip_ext ext b \<Longrightarrow> a = b"
  by (metis suffix_strip_ext)

lemma regular_splitext:
  assumes "plain_ext ext" and "regular_name ext name"
  shows "splitext name = (strip_ext ext name, ext)"
proof -
  from assms(1) obtain e where e: "ext = CHR ''.'' # e" "CHR ''.'' \<notin> set e" "CHR ''/'' \<notin> set e"
    by (rule plain_ext_parts)
  let ?stem = "strip_ext ext name"
  from assms(2) have n: "name = ?stem @ CHR ''.'' # e"
    by (simp add: regular_name_def suffix_strip_ext e(1) [symmetric])
  from assms(2) have "CHR ''/'' \<notin> set name" by (simp add: regular_name_def)
  with n have s: "CHR ''/'' \<notin> set ?stem" by (metis Un_iff set_append)
  from assms(2) have d: "\<exists>c\<in>set ?stem. c \<noteq> CHR ''.''"
    by (simp add: regular_name_def list_ex_iff)
  have "splitext (?stem @ CHR ''.'' # e) = (?stem, CHR ''.'' # e)"
    by (rule splitext_single_dot [OF s e(3) e(2) d])
  then show ?thesis using n e(1) by simp
qed

lemma regular_plugin_id:
  assumes "plain_ext ext" and "regular_name ext name"
  shows "plugin_id (path_join d name) = strip_ext ext name"
proof -
  from assms(2) have "CHR ''/'' \<notin> set name" by (simp add: regular_name_def)
  then have "snd (os_path_split (path_join d name)) = name" by (rule os_path_split_join)
  then show ?thesis by (simp add: plugin_id_def regular_splitext [OF assms])
qed

lemma rfind_present:
  assumes "c \<in> set p"
  obtains xs ys where "p = xs @ c # ys" "c \<notin> set ys" "rfind c p = int (length xs)"
proof -
  from split_list_last [OF assms] obtain xs ys where "p = xs @ c # ys" "c \<notin> set ys" by blast
  moreover from this have "rfind c p = int (length xs)" by (simp add: rfind_last)
  ultimately show ?thesis by (rule that)
qed

lemma splitext_parts:
  "fst (splitext p) @ snd (splitext p) = p \<and> CHR ''.'' \<notin> set (tl (snd (splitext p)))"
proof (cases "CHR ''.'' \<in> set p")
  case True
  then obtain xs ys where "p = xs @ CHR ''.'' # ys" "CHR ''.'' \<notin> set ys"
     "rfind CHR ''.'' p = int (length xs)" by (rule rfind_present)
  then show ?thesis by (simp add: splitext_def Let_def)
next
  case False
  then have "rfind CHR ''.'' p = - 1" by (rule rfind_absent)
  then show ?thesis using rfind_ge [of "CHR ''/''" p] by (simp add: splitext_def Let_def)
qed

lemma load_entry_scandir [simp]: "load_entry (w\<lparr>scandir := f\<rparr>) s n = load_entry w s n"
  by (simp add: load_entry_def get_installed_config_def spec_from_file_location_def Let_def)

lemma load_loop_scandir [simp]: "load_loop (w\<lparr>scandir := f\<rparr>) xs s = load_loop w xs s"
  by (induction xs arbitrary: s) (simp_all add: Let_def split: sum.splits)

subsection \<open>A worked directory\<close>

lemmas run_defs = findcandidate_files_def PlugInMgr_def fresh_mgr_def plugins_world_def glob_def
  path_join_def load_entry_def get_installed_config_def spec_from_file_location_def
  os_path_split_def rfind_def splitext_def inspect_getmembers_def suffix_to_prefix Let_def
  on_error_def dict_def std_members_def

lemma alpha_beta_run:
  "findcandidate_files alpha_beta (fresh_mgr ''.py'') =
     (None,
      \<lparr>plugin_dir = ''/app/Plugins'',
       candidate_files = [''/app/Plugins/alpha.py'', ''/app/Plugins/beta.py''],
       plug_ext = ''.py'',
       catalog =
         [''alpha'' \<mapsto>
            (Module ''alpha.py'' ''/app/Plugins/alpha.py''
               (Inr [(''VALUE'', PyInt 42), (''greet'', PyFunc ''greet''),
                     (''__doc__'', PyNone), (''__name__'', PyStr ''alpha.py'')]),
             [''VALUE'' \<mapsto> PyInt 42, ''greet'' \<mapsto> PyFunc ''greet'',
              ''__doc__'' \<mapsto> PyNone, ''__name__'' \<mapsto> PyStr ''alpha.py'']),
          ''beta'' \<mapsto>
            (Module ''beta.py'' ''/app/Plugins/beta.py''
               (Inr [(''__doc__'', PyNone), (''__name__'', PyStr ''beta.py'')]),
             [''__doc__'' \<mapsto> PyNone, ''__name__'' \<mapsto> PyStr ''beta.py''])],
       sys_path = [''/app/Plugins'']\<rparr>)"
  by (simp add: alpha_beta_def run_defs)

lemma alpha_beta_catalog:
  "catalog alpha_beta_state =
         [''alpha'' \<mapsto>
            (Module ''alpha.py'' ''/app/Plugins/alpha.py''
               (Inr [(''VALUE'', PyInt 42), (''greet'', PyFunc ''greet''),
                     (''__doc__'', PyNone), (''__name__'', PyStr ''alpha.py'')]),
             [''VALUE'' \<mapsto> PyInt 42, ''greet'' \<mapsto> PyFunc ''greet'',
              ''__doc__'' \<mapsto> PyNone, ''__name__'' \<mapsto> PyStr ''alpha.py'']),
          ''beta'' \<mapsto>
            (Module ''beta.py'' ''/app/Plugins/beta.py''
               (Inr [(''__doc__'', PyNone), (''__name__'', PyStr ''beta.py'')]),
             [''__doc__'' \<mapsto> PyNone, ''__name__'' \<mapsto> PyStr ''beta.py''])]"
  by (simp add: alpha_beta_state_def alpha_beta_run)

text \<open>Discovery over \<open>a.py\<close>, \<open>bad.py\<close>, \<open>c.py\<close>, the second of which raises.\<close>

lemma one_bad_run:
  "findcandidate_files one_bad (fresh_mgr ''.py'') =
     (Some (Exn (OtherError ''ValueError'') ''boom''),
      \<lparr>plugin_dir = ''/app/Plugins'',
       candidate_files = [''/app/Plugins/a.py'', ''/app/Plugins/bad.py''],
       plug_ext = ''.py'',
       catalog =
         [''a'' \<mapsto>
            (Module ''a.py'' ''/app/Plugins/a.py''
               (Inr [(''__doc__'', PyNone), (''__name__'', PyStr ''a.py'')]),
             [''__doc__'' \<mapsto> PyNone, ''__name__'' \<mapsto> PyStr ''a.py''])],
       sys_path = [''/app/Plugins'']\<rparr>)"
  by (simp add: one_bad_def run_defs)

lemma one_bad_candidates:
  "candidates one_bad (fresh_mgr ''.py'') = [''/app/Plugins/a.py''] @ ''/app/Plugins/bad.py'' # [''/app/Plugins/c.py'']"
  by (simp add: candidates_def one_bad_def run_defs)

lemma one_bad_loads: "list_all (loads one_bad (fresh_mgr ''.py'')) [''/app/Plugins/a.py'']"
  by (simp add: loads_def one_bad_def run_defs)

lemma one_bad_fails:
  "load_entry one_bad (fresh_mgr ''.py'') (snd (os_path_split ''/app/Plugins/bad.py''))
     = Inl (Exn (OtherError ''ValueError'') ''boom'')"
  by (simp add: one_bad_def run_defs)


lemma vanished_run:
  "findcandidate_files vanished (fresh_mgr ''.py'') =
     (Some (Exn FileNotFoundError ''No file found at location /app/Plugins/gone.py''),
      \<lparr>plugin_dir = ''/app/Plugins'', candidate_files = [''/app/Plugins/gone.py''],
       plug_ext = ''.py'', catalog = Map.empty, sys_path = [''/app/Plugins'']\<rparr>)"
  by (simp add: vanished_def run_defs)

lemma alpha_beta_state_eq:
  "alpha_beta_state =
      \<lparr>plugin_dir = ''/app/Plugins'',
       candidate_files = [''/app/Plugins/alpha.py'', ''/app/Plugins/beta.py''],
       plug_ext = ''.py'',
       catalog =
         [''alpha'' \<mapsto>
            (Module ''alpha.py'' ''/app/Plugins/alpha.py''
               (Inr [(''VALUE'', PyInt 42), (''greet'', PyFunc ''greet''),
                     (''__doc__'', PyNone), (''__name__'', PyStr ''alpha.py'')]),
             [''VALUE'' \<mapsto> PyInt 42, ''greet'' \<mapsto> PyFunc ''greet'',
              ''__doc__'' \<mapsto> PyNone, ''__name__'' \<mapsto> PyStr ''alpha.py'']),
          ''beta'' \<mapsto>
            (Module ''beta.py'' ''/app/Plugins/beta.py''
               (Inr [(''__doc__'', PyNone), (''__name__'', PyStr ''beta.py'')]),
             [''__doc__'' \<mapsto> PyNone, ''__name__'' \<mapsto> PyStr ''beta.py''])],
       sys_path = [''/app/Plugins'']\<rparr>"
  by (simp add: alpha_beta_state_def alpha_beta_run)


text \<open>Discovery over files with unusual names.\<close>

lemma two_dot_run:
  "findcandidate_files two_dot (fresh_mgr ''.plugin.py'') =
     (None,
      \<lparr>plugin_dir = ''/app/Plugins'', candidate_files = [''/app/Plugins/foo.plugin.py''],
       plug_ext = ''.plugin.py'',
       catalog =
         [''foo.plugin'' \<mapsto>
            (Module ''foo.plugin.py'' ''/app/Plugins/foo.plugin.py''
               (Inr [(''__doc__'', PyNone), (''__name__'', PyStr ''foo.plugin.py'')]),
             [''__doc__'' \<mapsto> PyNone, ''__name__'' \<mapsto> PyStr ''foo.plugin.py''])],
       sys_path = [''/app/Plugins'']\<rparr>)"
  by (simp add: two_dot_def run_defs)

lemma tar_run:
  "findcandidate_files tar_world (fresh_mgr ''.tar.py'') =
     (None,
      \<lparr>plugin_dir = ''/app/Plugins'',
       candidate_files = [''/app/Plugins/a.tar.py'', ''/app/Plugins/b.tar.py''],
       plug_ext = ''.tar.py'',
       catalog =
         [''a.tar'' \<mapsto>
            (Module ''a.tar.py'' ''/app/Plugins/a.tar.py''
               (Inr [(''__doc__'', PyNone), (''__name__'', PyStr ''a.tar.py'')]),
             [''__doc__'' \<mapsto> PyNone, ''__name__'' \<mapsto> PyStr ''a.tar.py'']),
          ''b.tar'' \<mapsto>
            (Module ''b.tar.py'' ''/app/Plugins/b.tar.py''
               (Inr [(''__doc__'', PyNone), (''__name__'', PyStr ''b.tar.py'')]),
             [''__doc__'' \<mapsto> PyNone, ''__name__'' \<mapsto> PyStr ''b.tar.py''])],
       sys_path = [''/app/Plugins'']\<rparr>)"
  by (simp add: tar_world_def run_defs)

lemma dot_files_run:
  "findcandidate_files dot_files (fresh_mgr ''.py'') =
     (None,
      \<lparr>plugin_dir = ''/app/Plugins'',
       candidate_files = [''/app/Plugins/.py'', ''/app/Plugins/.py.py''],
       plug_ext = ''.py'',
       catalog =
         [''.py'' \<mapsto>
            (Module ''.py.py'' ''/app/Plugins/.py.py''
               (Inr [(''__doc__'', PyNone), (''__name__'', PyStr ''.py.py'')]),
             [''__doc__'' \<mapsto> PyNone, ''__name__'' \<mapsto> PyStr ''.py.py''])],
       sys_path = [''/app/Plugins'']\<rparr>)"
  by (simp add: dot_files_def run_defs)

lemma plain_ext_py: "plain_ext ''.py''"
  by (simp add: plain_ext_def)

subsection \<open>The query methods\<close>

text \<open>
  Claim C1.  For every manager and every pair of an identifier and an attribute name,
  \<open>has\<close> returns \<open>True\<close> exactly when the identifier is a key of the catalog and the
  attribute name is a key of that entry's snapshot, \<open>False\<close> exactly when the identifier
  is a key and the attribute name is not in the snapshot, and \<open>None\<close>, which is neither,
  exactly when the identifier is not a key of the catalog.
\<close>

theorem has_three_outcomes:
  "(has s i a = Some True \<longleftrightarrow> (\<exists>m attrs. catalog s i = Some (m, attrs) \<and> a \<in> dom attrs))
   \<and> (has s i a = Some False \<longleftrightarrow> (\<exists>m attrs. catalog s i = Some (m, attrs) \<and> a \<notin> dom attrs))
   \<and> (has s i a = None \<longleftrightarrow> i \<notin> dom (catalog s))"
  by (cases "catalog s i") (auto simp: has_def)

theorem has_three_outcomes_witness:
  "has alpha_beta_state ''alpha'' ''VALUE'' = Some True
   \<and> has alpha_beta_state ''beta'' ''VALUE'' = Some False
   \<and> has alpha_beta_state ''gamma'' ''VALUE'' = None"
  using has_three_outcomes [of alpha_beta_state "''alpha''" "''VALUE''"]
    has_three_outcomes [of alpha_beta_state "''beta''" "''VALUE''"]
    has_three_outcomes [of alpha_beta_state "''gamma''" "''VALUE''"]
  by (simp add: alpha_beta_catalog)

text \<open>
  Claim C3.  \<open>get\<close> returns the value stored in the identifier's snapshot when \<open>has\<close> is
  \<open>True\<close>, and the default in every other case: when the identifier is not in the
  catalog and when it is but the attribute is not in its snapshot, so the caller cannot
  tell the two apart.  Neither subscript in \<open>get\<close> ever raises: the result is always a
  value.
\<close>

theorem get_stored_or_default:
  "(has s i a = Some True \<longrightarrow>
      (\<exists>m attrs v. catalog s i = Some (m, attrs) \<and> attrs a = Some v \<and> get s i a d = Inr v))
   \<and> (has s i a \<noteq> Some True \<longrightarrow> get s i a d = Inr d)
   \<and> (i \<notin> dom (catalog s) \<longrightarrow> get s i a d = Inr d)
   \<and> (\<forall>m attrs. catalog s i = Some (m, attrs) \<and> a \<notin> dom attrs \<longrightarrow> get s i a d = Inr d)
   \<and> (\<exists>v. get s i a d = Inr v)"
  by (cases "catalog s i") (auto simp: has_def get_def getitem_def)

theorem get_stored_or_default_witness:
  "has alpha_beta_state ''alpha'' ''VALUE'' = Some True
   \<and> get alpha_beta_state ''alpha'' ''VALUE'' PyNone = Inr (PyInt 42)
   \<and> has alpha_beta_state ''alpha'' ''missing'' \<noteq> Some True
   \<and> get alpha_beta_state ''alpha'' ''missing'' (PyStr ''fallback'') = Inr (PyStr ''fallback'')
   \<and> ''gamma'' \<notin> dom (catalog alpha_beta_state)
   \<and> get alpha_beta_state ''gamma'' ''VALUE'' (PyInt (- 1)) = Inr (PyInt (- 1))"
proof -
  have h1: "has alpha_beta_state ''alpha'' ''VALUE'' = Some True"
    by (simp add: has_def alpha_beta_catalog)
  have h2: "has alpha_beta_state ''alpha'' ''missing'' \<noteq> Some True"
    by (simp add: has_def alpha_beta_catalog)
  have h3: "''gamma'' \<notin> dom (catalog alpha_beta_state)"
    by (simp add: alpha_beta_catalog)
  have g1: "get alpha_beta_state ''alpha'' ''VALUE'' PyNone = Inr (PyInt 42)"
    using h1 get_stored_or_default [of alpha_beta_state "''alpha''" "''VALUE''" PyNone]
    by (auto simp: alpha_beta_catalog)
  have g2: "get alpha_beta_state ''alpha'' ''missing'' (PyStr ''fallback'') = Inr (PyStr ''fallback'')"
    using h2 get_stored_or_default [of alpha_beta_state "''alpha''" "''missing''" "PyStr ''fallback''"]
    by blast
  have g3: "get alpha_beta_state ''gamma'' ''VALUE'' (PyInt (- 1)) = Inr (PyInt (- 1))"
    using h3 get_stored_or_default [of alpha_beta_state "''gamma''" "''VALUE''" "PyInt (- 1)"]
    by blast
  show ?thesis using h1 h2 h3 g1 g2 g3 by blast
qed

subsection \<open>Discovery that aborts\<close>

text \<open>
  Claim C2.  When a candidate fails to load, the discovery call ends by raising.  At that
  point the catalog is exactly what it was once the candidates before the failing one had
  been stored: each of their identifiers is a key, every other key is as it was before
  the call, nothing is rolled back.  The outcome of the call is that of the loop run over
  the candidates up to and including the failing one: those after it are never reached.
\<close>

theorem discovery_aborts_at_first_failure:
  assumes "candidates w s = pre @ x # post"
    and "list_all (loads w s) pre"
    and "load_entry w s (snd (os_path_split x)) = Inl e"
  shows "fst (findcandidate_files w s) = Some (on_error e (snd (os_path_split x)))
    \<and> fst (load_loop w pre (loop_entry s)) = None
    \<and> catalog (snd (findcandidate_files w s)) = catalog (snd (load_loop w pre (loop_entry s)))
    \<and> catalog (snd (findcandidate_files w s)) = catalog s ++ new_entries w s pre
    \<and> (\<forall>p\<in>set pre. plugin_id p \<in> dom (catalog (snd (findcandidate_files w s))))
    \<and> (\<forall>i. i \<notin> plugin_id ` set pre \<longrightarrow> catalog (snd (findcandidate_files w s)) i = catalog s i)
    \<and> findcandidate_files w s = load_loop w (pre @ [x]) (loop_entry s)"
proof -
  let ?s0 = "loop_entry s"
  have pre: "list_all (loads w ?s0) pre" using assms(2) by simp
  have fail: "load_entry w ?s0 (snd (os_path_split x)) = Inl e" using assms(3) by simp
  have full: "findcandidate_files w s =
      (Some (on_error e (snd (os_path_split x))),
       ?s0\<lparr>candidate_files := candidate_files ?s0 @ pre @ [x],
           catalog := catalog ?s0 ++ new_entries w ?s0 pre\<rparr>)"
    unfolding findcandidate_files_loop assms(1) by (rule load_loop_abort [OF pre fail])
  have short: "load_loop w (pre @ [x]) ?s0 =
      (Some (on_error e (snd (os_path_split x))),
       ?s0\<lparr>candidate_files := candidate_files ?s0 @ pre @ [x],
           catalog := catalog ?s0 ++ new_entries w ?s0 pre\<rparr>)"
    by (rule load_loop_abort [OF pre fail, of "[]"])
  have before: "load_loop w pre ?s0 =
      (None, ?s0\<lparr>candidate_files := candidate_files ?s0 @ pre,
                 catalog := catalog ?s0 ++ new_entries w ?s0 pre\<rparr>)"
    by (rule load_loop_success [OF pre])
  have cat: "catalog (snd (findcandidate_files w s)) = catalog s ++ new_entries w s pre"
    by (simp add: full)
  have kept: "\<forall>p\<in>set pre. plugin_id p \<in> dom (catalog (snd (findcandidate_files w s)))"
    unfolding cat using new_entries_dom [OF assms(2)] by auto
  have others: "\<forall>i. i \<notin> plugin_id ` set pre \<longrightarrow> catalog (snd (findcandidate_files w s)) i = catalog s i"
    unfolding cat by (simp add: map_add_def new_entries_outside)
  show ?thesis
    using kept others by (simp add: full short before)
qed

theorem discovery_aborts_at_first_failure_witness:
  "fst (findcandidate_files one_bad (fresh_mgr ''.py'')) = Some (Exn (OtherError ''ValueError'') ''boom'')
   \<and> dom (catalog (snd (findcandidate_files one_bad (fresh_mgr ''.py'')))) = {''a''}
   \<and> findcandidate_files one_bad (fresh_mgr ''.py'')
       = load_loop one_bad [''/app/Plugins/a.py'', ''/app/Plugins/bad.py''] (loop_entry (fresh_mgr ''.py''))"
proof -
  note th = discovery_aborts_at_first_failure [OF one_bad_candidates one_bad_loads one_bad_fails]
  have oe: "on_error (Exn (OtherError ''ValueError'') ''boom'') (snd (os_path_split ''/app/Plugins/bad.py''))
         = Exn (OtherError ''ValueError'') ''boom''"
    by (simp add: on_error_def)
  have a: "fst (findcandidate_files one_bad (fresh_mgr ''.py'')) = Some (Exn (OtherError ''ValueError'') ''boom'')"
    using th [THEN conjunct1] unfolding oe .
  have d: "dom (catalog (snd (findcandidate_files one_bad (fresh_mgr ''.py'')))) = {''a''}"
    by (simp add: one_bad_run)
  have c: "findcandidate_files one_bad (fresh_mgr ''.py'')
       = load_loop one_bad [''/app/Plugins/a.py'', ''/app/Plugins/bad.py''] (loop_entry (fresh_mgr ''.py''))"
  proof -
    from th have "findcandidate_files one_bad (fresh_mgr ''.py'')
       = load_loop one_bad ([''/app/Plugins/a.py''] @ [''/app/Plugins/bad.py'']) (loop_entry (fresh_mgr ''.py''))"
      by (elim conjE)
    then show ?thesis by (simp only: append.simps)
  qed
  show ?thesis by (intro conjI a d c)
qed

text \<open>
  Claim C10, as amended.  On a discovery call that aborts at a candidate, \<open>candidate_files\<close>
  holds the paths of the candidates up to and including that one and none after it, and the
  keys of the catalog are those it had before the call together with the identifiers of the
  candidates strictly before the failing one.  So the failing file's path is in
  \<open>candidate_files\<close>, and its identifier is absent from the catalog provided it was not a
  key before the call and is not the identifier of an earlier candidate of the call; an entry
  the catalog already had under that identifier stays as it was.
\<close>

theorem aborted_call_state:
  assumes "candidates w s = pre @ x # post"
    and "list_all (loads w s) pre"
    and "load_entry w s (snd (os_path_split x)) = Inl e"
  shows "fst (findcandidate_files w s) \<noteq> None
    \<and> candidate_files (snd (findcandidate_files w s)) = pre @ [x]
    \<and> candidate_files (snd (findcandidate_files w s)) = take (Suc (length pre)) (candidates w s)
    \<and> (distinct (candidates w s) \<longrightarrow>
          set post \<inter> set (candidate_files (snd (findcandidate_files w s))) = {})
    \<and> dom (catalog (snd (findcandidate_files w s))) = dom (catalog s) \<union> plugin_id ` set pre
    \<and> (plugin_id x \<notin> dom (catalog s) \<and> plugin_id x \<notin> plugin_id ` set pre \<longrightarrow>
          plugin_id x \<notin> dom (catalog (snd (findcandidate_files w s))))
    \<and> (plugin_id x \<notin> plugin_id ` set pre \<longrightarrow>
          catalog (snd (findcandidate_files w s)) (plugin_id x) = catalog s (plugin_id x))"
proof -
  let ?s0 = "loop_entry s"
  have pre: "list_all (loads w ?s0) pre" using assms(2) by simp
  have fail: "load_entry w ?s0 (snd (os_path_split x)) = Inl e" using assms(3) by simp
  have full: "findcandidate_files w s =
      (Some (on_error e (snd (os_path_split x))),
       ?s0\<lparr>candidate_files := candidate_files ?s0 @ pre @ [x],
           catalog := catalog ?s0 ++ new_entries w ?s0 pre\<rparr>)"
    unfolding findcandidate_files_loop assms(1) by (rule load_loop_abort [OF pre fail])
  have cf: "candidate_files (snd (findcandidate_files w s)) = pre @ [x]"
    by (simp add: full)
  have cat: "catalog (snd (findcandidate_files w s)) = catalog s ++ new_entries w s pre"
    by (simp add: full)
  have tk: "take (Suc (length pre)) (candidates w s) = pre @ [x]"
    by (simp add: assms(1))
  have dj: "distinct (candidates w s) \<longrightarrow> set post \<inter> set (pre @ [x]) = {}"
    by (auto simp: assms(1))
  have dm: "dom (catalog (snd (findcandidate_files w s))) = dom (catalog s) \<union> plugin_id ` set pre"
    unfolding cat using new_entries_dom [OF assms(2)] by auto
  have st: "plugin_id x \<notin> plugin_id ` set pre \<longrightarrow>
          catalog (snd (findcandidate_files w s)) (plugin_id x) = catalog s (plugin_id x)"
    unfolding cat by (simp add: map_add_def new_entries_outside)
  show ?thesis
    unfolding cf tk using dj dm st by (simp add: full)
qed

theorem aborted_call_state_witness:
  "candidate_files (snd (findcandidate_files one_bad (fresh_mgr ''.py'')))
      = [''/app/Plugins/a.py'', ''/app/Plugins/bad.py'']
   \<and> dom (catalog (snd (findcandidate_files one_bad (fresh_mgr ''.py'')))) = {''a''}
   \<and> plugin_id ''/app/Plugins/bad.py'' = ''bad''
   \<and> ''bad'' \<notin> dom (catalog (snd (findcandidate_files one_bad (fresh_mgr ''.py''))))"
proof -
  note th = aborted_call_state [OF one_bad_candidates one_bad_loads one_bad_fails]
  have i: "plugin_id ''/app/Plugins/bad.py'' = ''bad''" "plugin_id ''/app/Plugins/a.py'' = ''a''"
    by (simp_all add: plugin_id_def run_defs)
  have c: "catalog (fresh_mgr ''.py'') = Map.empty"
    by (simp add: fresh_mgr_def PlugInMgr_def)
  from th have "candidate_files (snd (findcandidate_files one_bad (fresh_mgr ''.py'')))
      = [''/app/Plugins/a.py''] @ [''/app/Plugins/bad.py'']" by (elim conjE)
  then have a: "candidate_files (snd (findcandidate_files one_bad (fresh_mgr ''.py'')))
      = [''/app/Plugins/a.py'', ''/app/Plugins/bad.py'']" by simp
  from th have "dom (catalog (snd (findcandidate_files one_bad (fresh_mgr ''.py''))))
     = dom (catalog (fresh_mgr ''.py'')) \<union> plugin_id ` set [''/app/Plugins/a.py'']" by (elim conjE)
  then have d: "dom (catalog (snd (findcandidate_files one_bad (fresh_mgr ''.py'')))) = {''a''}"
    by (simp add: i c)
  from th have "plugin_id ''/app/Plugins/bad.py'' \<notin> dom (catalog (fresh_mgr ''.py''))
       \<and> plugin_id ''/app/Plugins/bad.py'' \<notin> plugin_id ` set [''/app/Plugins/a.py''] \<longrightarrow>
          plugin_id ''/app/Plugins/bad.py'' \<notin> dom (catalog (snd (findcandidate_files one_bad (fresh_mgr ''.py''))))"
    by (elim conjE)
  then have n: "''bad'' \<notin> dom (catalog (snd (findcandidate_files one_bad (fresh_mgr ''.py''))))"
    by (simp add: i c)
  show ?thesis by (intro conjI a d i(1) n)
qed

text \<open>
  The claim as first stated, with the identifier absent after every failed call, fails when
  the file loaded in an earlier call: discovery over \<open>alpha.py\<close> and \<open>beta.py\<close>, then
  \<open>alpha.py\<close> starts raising and discovery runs again.
\<close>

theorem failed_identifier_still_in_catalog:
  "fst (findcandidate_files alpha_broken alpha_beta_state) = Some (Exn (OtherError ''ValueError'') ''boom'')
   \<and> candidate_files (snd (findcandidate_files alpha_broken alpha_beta_state)) = [''/app/Plugins/alpha.py'']
   \<and> plugin_id ''/app/Plugins/alpha.py'' = ''alpha''
   \<and> ''alpha'' \<in> dom (catalog (snd (findcandidate_files alpha_broken alpha_beta_state)))"
  by (simp add: alpha_beta_state_eq alpha_broken_def plugin_id_def run_defs)




subsection \<open>Loading one file\<close>

text \<open>
  Claim C8, as amended.  \<open>get_installed_config\<close> raises the not-found error, whose message
  contains the resolved path, whenever that path does not exist.  When the path exists, a
  \<open>FileNotFoundError\<close> that comes out of it is the one raised by creating and executing the
  module, unchanged; if that step raises none, none comes out.
\<close>

theorem get_installed_config_not_found:
  "(\<not> path_exists w (path_join (plugin_dir s) f) \<longrightarrow>
       get_installed_config w s f
         = Inl (Exn FileNotFoundError (''No file found at location '' @ path_join (plugin_dir s) f))
       \<and> sublist (path_join (plugin_dir s) f)
            (''No file found at location '' @ path_join (plugin_dir s) f))
   \<and> (path_exists w (path_join (plugin_dir s) f) \<longrightarrow>
       (\<forall>e. get_installed_config w s f = Inl e \<and> exn_kind e = FileNotFoundError \<longrightarrow>
            exec_module w (f, path_join (plugin_dir s) f) = Inl e))
   \<and> (path_exists w (path_join (plugin_dir s) f)
        \<and> (\<forall>e. exec_module w (f, path_join (plugin_dir s) f) = Inl e \<longrightarrow> exn_kind e \<noteq> FileNotFoundError)
       \<longrightarrow> (\<forall>e. get_installed_config w s f = Inl e \<longrightarrow> exn_kind e \<noteq> FileNotFoundError))"
  by (auto simp: get_installed_config_def spec_from_file_location_def sublist_def Let_def
      split: if_splits option.splits intro: exI [of _ "''No file found at location ''"])

theorem get_installed_config_not_found_witness:
  "\<not> path_exists vanished (path_join (plugin_dir (fresh_mgr ''.py'')) ''gone.py'')
   \<and> get_installed_config vanished (fresh_mgr ''.py'') ''gone.py''
       = Inl (Exn FileNotFoundError ''No file found at location /app/Plugins/gone.py'')
   \<and> path_exists alpha_beta (path_join (plugin_dir (fresh_mgr ''.py'')) ''alpha.py'')
   \<and> \<not> (\<exists>e. get_installed_config alpha_beta (fresh_mgr ''.py'') ''alpha.py'' = Inl e
          \<and> exn_kind e = FileNotFoundError)"
proof -
  have h: "\<not> path_exists vanished (path_join (plugin_dir (fresh_mgr ''.py'')) ''gone.py'')"
    by (simp add: vanished_def run_defs)
  have p: "path_join (plugin_dir (fresh_mgr ''.py'')) ''gone.py'' = ''/app/Plugins/gone.py''"
    by (simp add: run_defs)
  have g: "get_installed_config vanished (fresh_mgr ''.py'') ''gone.py''
       = Inl (Exn FileNotFoundError ''No file found at location /app/Plugins/gone.py'')"
    using h get_installed_config_not_found [of vanished "fresh_mgr ''.py''" "''gone.py''"]
    unfolding p by simp
  have k: "path_exists alpha_beta (path_join (plugin_dir (fresh_mgr ''.py'')) ''alpha.py'')"
    by (simp add: alpha_beta_def run_defs)
  have x: "\<forall>e. exec_module alpha_beta (''alpha.py'', path_join (plugin_dir (fresh_mgr ''.py'')) ''alpha.py'') = Inl e
        \<longrightarrow> exn_kind e \<noteq> FileNotFoundError"
    by (simp add: alpha_beta_def run_defs)
  have n: "\<not> (\<exists>e. get_installed_config alpha_beta (fresh_mgr ''.py'') ''alpha.py'' = Inl e
          \<and> exn_kind e = FileNotFoundError)"
    using k x get_installed_config_not_found [of alpha_beta "fresh_mgr ''.py''" "''alpha.py''"]
    by blast
  show ?thesis by (intro conjI h g k n)
qed

text \<open>
  The claim as first stated, with a not-found error only when the path does not exist, fails
  for a plugin that is there and whose top-level code opens a file that is not.
\<close>

theorem not_found_although_file_exists:
  "path_exists opens_missing (path_join (plugin_dir (fresh_mgr ''.py'')) ''reader.py'')
   \<and> get_installed_config opens_missing (fresh_mgr ''.py'') ''reader.py''
       = Inl (Exn FileNotFoundError ''[Errno 2] No such file or directory: data.txt'')"
  by (simp add: opens_missing_def run_defs)

subsection \<open>Discovery that completes\<close>





subsection \<open>Identifiers and extensions\<close>

text \<open>
  Claim C5, as amended.  The identifier under which a candidate's entry is stored is its
  base name with the part from its last dot on removed, as \<open>os.path.splitext\<close> splits it:
  the two parts always make up the name, and the part removed has no dot after its first
  character.  When the configured extension is a dot followed by characters none of which
  is a dot (or a separator or glob metacharacter), and the file name has something other
  than dots in front of the extension, the identifier is exactly the base name with the
  configured extension removed.
\<close>

theorem identifier_strips_plain_extension:
  assumes "plain_ext ext" and "regular_name ext name" and "load_entry w s name = Inr entry"
  shows "plugin_id (path_join d name) = strip_ext ext name
     \<and> strip_ext ext name @ ext = name
     \<and> load_loop w (path_join d name # rest) s
         = load_loop w rest (s\<lparr>candidate_files := candidate_files s @ [path_join d name],
                              catalog := (catalog s)(strip_ext ext name \<mapsto> entry)\<rparr>)
     \<and> (\<forall>p. fst (splitext p) @ snd (splitext p) = p \<and> CHR ''.'' \<notin> set (tl (snd (splitext p))))"
proof -
  from assms(2) have sl: "CHR ''/'' \<notin> set name" and sf: "suffix ext name"
    by (simp_all add: regular_name_def)
  have b: "snd (os_path_split (path_join d name)) = name" using sl by (rule os_path_split_join)
  have k: "fst (splitext name) = strip_ext ext name" by (simp add: regular_splitext [OF assms(1,2)])
  have i: "plugin_id (path_join d name) = strip_ext ext name"
    by (rule regular_plugin_id [OF assms(1,2)])
  have l: "load_loop w (path_join d name # rest) s
         = load_loop w rest (s\<lparr>candidate_files := candidate_files s @ [path_join d name],
                              catalog := (catalog s)(strip_ext ext name \<mapsto> entry)\<rparr>)"
    using assms(3) by (simp add: Let_def b k)
  show ?thesis using i l suffix_strip_ext [OF sf] splitext_parts by blast
qed

theorem identifier_strips_plain_extension_witness:
  "plain_ext ''.py'' \<and> regular_name ''.py'' ''alpha.py''
   \<and> plugin_id ''/app/Plugins/alpha.py'' = ''alpha''
   \<and> ''alpha'' @ ''.py'' = ''alpha.py''"
proof -
  have r: "regular_name ''.py'' ''alpha.py''"
    by (simp add: regular_name_def strip_ext_def suffix_to_prefix)
  have l: "load_entry alpha_beta (fresh_mgr ''.py'') ''alpha.py'' = Inr
            (Module ''alpha.py'' ''/app/Plugins/alpha.py''
               (Inr [(''VALUE'', PyInt 42), (''greet'', PyFunc ''greet''),
                     (''__doc__'', PyNone), (''__name__'', PyStr ''alpha.py'')]),
             dict [(''VALUE'', PyInt 42), (''greet'', PyFunc ''greet''),
                     (''__doc__'', PyNone), (''__name__'', PyStr ''alpha.py'')])"
    by (simp add: alpha_beta_def fresh_mgr_def PlugInMgr_def plugins_world_def path_join_def
        load_entry_def get_installed_config_def spec_from_file_location_def inspect_getmembers_def
        suffix_to_prefix std_members_def)
  have p: "path_join ''/app/Plugins'' ''alpha.py'' = ''/app/Plugins/alpha.py''"
    by (simp add: path_join_def)
  have s: "strip_ext ''.py'' ''alpha.py'' = ''alpha''"
    by (simp add: strip_ext_def)
  from identifier_strips_plain_extension [OF plain_ext_py r l, of "''/app/Plugins''" "[]"]
  have "plugin_id ''/app/Plugins/alpha.py'' = ''alpha''"
    unfolding p s by (elim conjE)
  with plain_ext_py r show ?thesis by simp
qed

text \<open>
  The claim as first stated, for any configured extension, fails for \<open>.plugin.py\<close>: the
  file \<open>foo.plugin.py\<close> is cataloged as \<open>foo.plugin\<close>, not as \<open>foo\<close>.
\<close>

theorem two_dot_extension_not_removed:
  "fst (findcandidate_files two_dot (fresh_mgr ''.plugin.py'')) = None
   \<and> candidate_files (snd (findcandidate_files two_dot (fresh_mgr ''.plugin.py'')))
        = [''/app/Plugins/foo.plugin.py'']
   \<and> dom (catalog (snd (findcandidate_files two_dot (fresh_mgr ''.plugin.py'')))) = {''foo.plugin''}
   \<and> strip_ext ''.plugin.py'' ''foo.plugin.py'' = ''foo''
   \<and> ''foo'' \<notin> dom (catalog (snd (findcandidate_files two_dot (fresh_mgr ''.plugin.py''))))"
  by (simp add: two_dot_run strip_ext_def)

text \<open>
  Claim C4, as amended.  Let the configured extension be a dot followed by characters none
  of which is a dot, a separator or a glob metacharacter, and let every file of the
  directory whose name ends with it have something other than dots in front of it.  Then
  after a discovery call that completes, \<open>candidate_files\<close> lists exactly the files
  whose names end with the extension; a file with another ending is not in
  \<open>candidate_files\<close>, and the call's outcome is what it would be were that file not
  there; the keys of the catalog are those it had before together with one key per
  matching file, its name without the extension, all different.  So from an empty catalog,
  and in particular for a directory of N files all ending with the extension, the catalog
  has exactly N entries.
\<close>

theorem discovery_catalogs_matching_files:
  assumes "plain_ext (plug_ext s)"
    and "distinct (scandir w (plugin_dir s))"
    and "\<forall>n\<in>set (scandir w (plugin_dir s)). suffix (plug_ext s) n \<longrightarrow> regular_name (plug_ext s) n"
    and "findcandidate_files w s = (None, s')"
  shows "candidate_files s'
        = map (path_join (plugin_dir s)) (filter (suffix (plug_ext s)) (scandir w (plugin_dir s)))
    \<and> (\<forall>n\<in>set (scandir w (plugin_dir s)). \<not> suffix (plug_ext s) n \<longrightarrow>
          path_join (plugin_dir s) n \<notin> set (candidate_files s'))
    \<and> findcandidate_files (w\<lparr>scandir := \<lambda>d. filter (suffix (plug_ext s)) (scandir w d)\<rparr>) s
        = findcandidate_files w s
    \<and> dom (catalog s')
        = dom (catalog s) \<union> strip_ext (plug_ext s) ` set (filter (suffix (plug_ext s)) (scandir w (plugin_dir s)))
    \<and> card (strip_ext (plug_ext s) ` set (filter (suffix (plug_ext s)) (scandir w (plugin_dir s))))
        = length (filter (suffix (plug_ext s)) (scandir w (plugin_dir s)))
    \<and> (catalog s = Map.empty \<longrightarrow>
          card (dom (catalog s')) = length (filter (suffix (plug_ext s)) (scandir w (plugin_dir s))))
    \<and> (list_all (suffix (plug_ext s)) (scandir w (plugin_dir s)) \<and> catalog s = Map.empty \<longrightarrow>
          dom (catalog s') = strip_ext (plug_ext s) ` set (scandir w (plugin_dir s))
          \<and> card (dom (catalog s')) = length (scandir w (plugin_dir s)))"
proof -
  let ?ext = "plug_ext s" and ?dir = "plugin_dir s"
  let ?names = "filter (suffix ?ext) (scandir w ?dir)"
  have cs: "candidates w s = map (path_join ?dir) ?names"
    by (rule plain_ext_candidates [OF assms(1)])
  from findcandidate_files_completed [OF assms(4)]
  have al: "list_all (loads w s) (candidates w s)"
    and s': "s' = s\<lparr>sys_path := sys_path s @ [?dir], candidate_files := candidates w s,
                    catalog := catalog s ++ new_entries w s (candidates w s)\<rparr>"
    by auto
  have cf: "candidate_files s' = map (path_join ?dir) ?names" by (simp add: s' cs)
  have nm: "\<forall>n\<in>set (scandir w ?dir). \<not> suffix ?ext n \<longrightarrow> path_join ?dir n \<notin> set (candidate_files s')"
    unfolding cf by (auto dest: path_join_inj)
  have cs2: "candidates (w\<lparr>scandir := \<lambda>d. filter (suffix ?ext) (scandir w d)\<rparr>) s = candidates w s"
    by (simp add: candidates_def glob_def plain_ext_glob [OF assms(1)])
  have same: "findcandidate_files (w\<lparr>scandir := \<lambda>d. filter (suffix ?ext) (scandir w d)\<rparr>) s
        = findcandidate_files w s"
    by (simp add: findcandidate_files_loop cs2)
  have reg: "\<And>n. n \<in> set ?names \<Longrightarrow> regular_name ?ext n" using assms(3) by simp
  have ids: "plugin_id ` set (candidates w s) = strip_ext ?ext ` set ?names"
    unfolding cs using reg by (auto simp: regular_plugin_id [OF assms(1)] intro!: image_eqI)
  have dm: "dom (catalog s') = dom (catalog s) \<union> strip_ext ?ext ` set ?names"
    by (auto simp: s' new_entries_dom [OF al] ids)
  have inj: "inj_on (strip_ext ?ext) (set ?names)"
    by (rule inj_onI) (auto dest: strip_ext_inj)
  have dn: "distinct ?names" using assms(2) by simp
  have cd: "card (strip_ext ?ext ` set ?names) = length ?names"
    using card_image [OF inj] distinct_card [OF dn] by (simp only:)
  have ce: "catalog s = Map.empty \<longrightarrow> card (dom (catalog s')) = length ?names"
    using dm cd by simp
  have fin: "list_all (suffix ?ext) (scandir w ?dir) \<and> catalog s = Map.empty \<longrightarrow>
          dom (catalog s') = strip_ext ?ext ` set (scandir w ?dir)
          \<and> card (dom (catalog s')) = length (scandir w ?dir)"
  proof
    assume h: "list_all (suffix ?ext) (scandir w ?dir) \<and> catalog s = Map.empty"
    then have e: "?names = scandir w ?dir" by (simp add: list_all_iff)
    from h have "dom (catalog s) = {}" by simp
    with dm cd show "dom (catalog s') = strip_ext ?ext ` set (scandir w ?dir)
          \<and> card (dom (catalog s')) = length (scandir w ?dir)"
      unfolding e by simp
  qed
  show ?thesis
    by (intro conjI cf nm same dm cd ce fin)
qed

theorem discovery_catalogs_matching_files_witness:
  "candidate_files alpha_beta_state = [''/app/Plugins/alpha.py'', ''/app/Plugins/beta.py'']
   \<and> ''/app/Plugins/notes.txt'' \<notin> set (candidate_files alpha_beta_state)
   \<and> dom (catalog alpha_beta_state) = {''alpha'', ''beta''}
   \<and> card (dom (catalog alpha_beta_state)) = 2"
proof -
  let ?s = "fresh_mgr ''.py''"
  have sd: "scandir alpha_beta ''/app/Plugins'' = [''alpha.py'', ''notes.txt'', ''beta.py'']"
    by (simp add: alpha_beta_def plugins_world_def)
  have ex: "plug_ext ?s = ''.py''" and dr: "plugin_dir ?s = ''/app/Plugins''" and em: "catalog ?s = Map.empty"
    by (simp_all add: fresh_mgr_def PlugInMgr_def)
  have h1: "plain_ext (plug_ext ?s)" unfolding ex by (rule plain_ext_py)
  have h2: "distinct (scandir alpha_beta (plugin_dir ?s))" unfolding dr sd by simp
  have h3: "\<forall>n\<in>set (scandir alpha_beta (plugin_dir ?s)). suffix (plug_ext ?s) n \<longrightarrow> regular_name (plug_ext ?s) n"
    unfolding dr sd ex by (simp add: regular_name_def strip_ext_def suffix_to_prefix)
  have h4: "findcandidate_files alpha_beta ?s = (None, alpha_beta_state)"
    by (simp add: alpha_beta_state_def alpha_beta_run)
  note th = discovery_catalogs_matching_files [OF h1 h2 h3 h4]
  have f: "filter (suffix ''.py'') [''alpha.py'', ''notes.txt'', ''beta.py''] = [''alpha.py'', ''beta.py'']"
    by (simp add: suffix_to_prefix)
  from th have "candidate_files alpha_beta_state
        = map (path_join (plugin_dir ?s)) (filter (suffix (plug_ext ?s)) (scandir alpha_beta (plugin_dir ?s)))"
    by (elim conjE)
  then have a: "candidate_files alpha_beta_state = [''/app/Plugins/alpha.py'', ''/app/Plugins/beta.py'']"
    unfolding dr sd ex f by (simp add: path_join_def)
  from th have "\<forall>n\<in>set (scandir alpha_beta (plugin_dir ?s)). \<not> suffix (plug_ext ?s) n \<longrightarrow>
          path_join (plugin_dir ?s) n \<notin> set (candidate_files alpha_beta_state)"
    by (elim conjE)
  then have b: "''/app/Plugins/notes.txt'' \<notin> set (candidate_files alpha_beta_state)"
    unfolding dr sd ex by (simp add: path_join_def suffix_to_prefix)
  from th have "dom (catalog alpha_beta_state)
        = dom (catalog ?s) \<union> strip_ext (plug_ext ?s) ` set (filter (suffix (plug_ext ?s)) (scandir alpha_beta (plugin_dir ?s)))"
    by (elim conjE)
  then have c: "dom (catalog alpha_beta_state) = {''alpha'', ''beta''}"
    unfolding dr sd ex em f by (simp add: strip_ext_def)
  from th have "catalog ?s = Map.empty \<longrightarrow>
          card (dom (catalog alpha_beta_state)) = length (filter (suffix (plug_ext ?s)) (scandir alpha_beta (plugin_dir ?s)))"
    by (elim conjE)
  then have d: "card (dom (catalog alpha_beta_state)) = 2"
    unfolding dr sd ex f using em by simp
  show ?thesis by (intro conjI a b c d)
qed

text \<open>
  The claim as first stated, for every extension and directory, fails in two ways.  With
  the extension \<open>.tar.py\<close> the files \<open>a.tar.py\<close> and \<open>b.tar.py\<close> are cataloged as
  \<open>a.tar\<close> and \<open>b.tar\<close>, not as \<open>a\<close> and \<open>b\<close>.  With the extension \<open>.py\<close> the two
  files \<open>.py\<close> and \<open>.py.py\<close> both match and both get the identifier \<open>.py\<close>: two
  files, one entry.
\<close>

theorem catalog_keys_differ_from_stripped_names:
  "fst (findcandidate_files tar_world (fresh_mgr ''.tar.py'')) = None
   \<and> scandir tar_world ''/app/Plugins'' = [''a.tar.py'', ''b.tar.py'']
   \<and> list_all (suffix ''.tar.py'') (scandir tar_world ''/app/Plugins'')
   \<and> dom (catalog (snd (findcandidate_files tar_world (fresh_mgr ''.tar.py'')))) = {''a.tar'', ''b.tar''}
   \<and> map (strip_ext ''.tar.py'') (scandir tar_world ''/app/Plugins'') = [''a'', ''b'']
   \<and> fst (findcandidate_files dot_files (fresh_mgr ''.py'')) = None
   \<and> scandir dot_files ''/app/Plugins'' = [''.py'', ''.py.py'']
   \<and> list_all (suffix ''.py'') (scandir dot_files ''/app/Plugins'')
   \<and> dom (catalog (snd (findcandidate_files dot_files (fresh_mgr ''.py'')))) = {''.py''}"
proof -
  have t1: "scandir tar_world ''/app/Plugins'' = [''a.tar.py'', ''b.tar.py'']"
    by (simp add: tar_world_def plugins_world_def)
  have d1: "scandir dot_files ''/app/Plugins'' = [''.py'', ''.py.py'']"
    by (simp add: dot_files_def plugins_world_def)
  have t2: "list_all (suffix ''.tar.py'') (scandir tar_world ''/app/Plugins'')"
    unfolding t1 by (simp add: suffix_to_prefix)
  have d2: "list_all (suffix ''.py'') (scandir dot_files ''/app/Plugins'')"
    unfolding d1 by (simp add: suffix_to_prefix)
  have t3: "map (strip_ext ''.tar.py'') (scandir tar_world ''/app/Plugins'') = [''a'', ''b'']"
    unfolding t1 by (simp add: strip_ext_def)
  have t4: "fst (findcandidate_files tar_world (fresh_mgr ''.tar.py'')) = None"
    by (simp add: tar_run)
  have t5: "dom (catalog (snd (findcandidate_files tar_world (fresh_mgr ''.tar.py'')))) = {''a.tar'', ''b.tar''}"
    by (auto simp: tar_run)
  have d4: "fst (findcandidate_files dot_files (fresh_mgr ''.py'')) = None"
    by (simp add: dot_files_run)
  have d5: "dom (catalog (snd (findcandidate_files dot_files (fresh_mgr ''.py'')))) = {''.py''}"
    by (simp add: dot_files_run)
  show ?thesis by (intro conjI t4 t1 t2 t5 t3 d4 d1 d2 d5)
qed

end
